theory Spec2Isabelle
  imports Complex_Main "HOL-Library.Word"
begin

section \<open>The demo-data generator of GLIMPSE\<close>

text \<open>
  A shallow embedding of \<^verbatim>\<open>apps/web/src/app/api/mast/demo-data/[target]/route.ts\<close>.

  Strings are sequences of UTF-16 code units, as \<^verbatim>\<open>charCodeAt\<close> reads them. Integer
  valued numbers whose magnitude stays far below \<open>2 ^ 53\<close> (the hash, the generator's
  state) are \<open>int\<close>. Finite numbers are \<open>real\<close>: the rounding of IEEE doubles is not
  modelled. Where the code can produce \<^verbatim>\<open>NaN\<close> or an infinity, numbers are \<open>jsnum\<close>.
\<close>

subsection \<open>Strings\<close>

type_synonym jsstring = "16 word list"

definition ascii :: "string \<Rightarrow> jsstring" where
  "ascii s = map (\<lambda>c. of_nat (of_char c)) s"

definition charCodeAt :: "jsstring \<Rightarrow> nat \<Rightarrow> int" where
  "charCodeAt str i = uint (str ! i)"

subsection \<open>hashString\<close>

definition toInt32 :: "int \<Rightarrow> int" where
  "toInt32 x = (x + 2 ^ 31) mod 2 ^ 32 - 2 ^ 31"

definition shl32 :: "int \<Rightarrow> nat \<Rightarrow> int" where
  "shl32 x n = toInt32 (toInt32 x * 2 ^ (n mod 32))"

text \<open>One round of the loop body: \<^verbatim>\<open>hash = (hash << 5) - hash + str.charCodeAt(i); hash |= 0\<close>.\<close>

definition hash_round :: "jsstring \<Rightarrow> int \<Rightarrow> nat \<Rightarrow> int" where
  "hash_round str hash i = toInt32 (shl32 hash 5 - hash + charCodeAt str i)"

definition hashString :: "jsstring \<Rightarrow> int" where
  "hashString str = \<bar>foldl (hash_round str) 0 [0..<length str]\<bar>"

subsection \<open>seededRandom\<close>

text \<open>The remainder operator of JavaScript truncates: the sign is the dividend's.\<close>

definition js_rem :: "int \<Rightarrow> int \<Rightarrow> int" where
  "js_rem a b = sgn a * (\<bar>a\<bar> mod \<bar>b\<bar>)"

text \<open>
  \<^verbatim>\<open>seededRandom(seed)\<close> returns a closure over the mutable \<^verbatim>\<open>seed\<close>; the closure's
  state is that one integer. \<open>rand\<close> is a call of the closure: the value returned and
  the new state.
\<close>

type_synonym rng = int

definition seededRandom :: "int \<Rightarrow> rng" where
  "seededRandom seed = seed"

definition rand :: "rng \<Rightarrow> real \<times> rng" where
  "rand seed = (let seed' = js_rem (seed * 9301 + 49297) 233280
                in (real_of_int seed' / 233280, seed'))"

subsection \<open>Numbers with the special values of IEEE arithmetic\<close>

text \<open>
  \<open>Num x\<close> is a finite number. Arithmetic on finite numbers is exact; the special values
  follow IEEE 754. Zero carries no sign: a division by zero takes the divisor as \<open>+0\<close>.
\<close>

datatype jsnum = Num real | NaN | PInf | NInf

fun sign_of :: "jsnum \<Rightarrow> real" where
  "sign_of (Num x) = sgn x"
| "sign_of PInf = 1"
| "sign_of NInf = - 1"
| "sign_of NaN = 0"

definition inf_of_sign :: "real \<Rightarrow> jsnum" where
  "inf_of_sign s = (if 0 < s then PInf else if s < 0 then NInf else NaN)"

instantiation jsnum :: "{plus, uminus, minus, times, inverse}"
begin

fun plus_jsnum :: "jsnum \<Rightarrow> jsnum \<Rightarrow> jsnum" where
  "plus_jsnum (Num x) (Num y) = Num (x + y)"
| "plus_jsnum NaN _ = NaN"
| "plus_jsnum _ NaN = NaN"
| "plus_jsnum PInf NInf = NaN"
| "plus_jsnum NInf PInf = NaN"
| "plus_jsnum PInf _ = PInf"
| "plus_jsnum _ PInf = PInf"
| "plus_jsnum NInf _ = NInf"
| "plus_jsnum _ NInf = NInf"

fun uminus_jsnum :: "jsnum \<Rightarrow> jsnum" where
  "uminus_jsnum (Num x) = Num (- x)"
| "uminus_jsnum NaN = NaN"
| "uminus_jsnum PInf = NInf"
| "uminus_jsnum NInf = PInf"

definition minus_jsnum :: "jsnum \<Rightarrow> jsnum \<Rightarrow> jsnum" where
  "minus_jsnum a b = a + (- b)"

fun times_jsnum :: "jsnum \<Rightarrow> jsnum \<Rightarrow> jsnum" where
  "times_jsnum (Num x) (Num y) = Num (x * y)"
| "times_jsnum NaN _ = NaN"
| "times_jsnum _ NaN = NaN"
| "times_jsnum a b = inf_of_sign (sign_of a * sign_of b)"

fun divide_jsnum :: "jsnum \<Rightarrow> jsnum \<Rightarrow> jsnum" where
  "divide_jsnum (Num x) (Num y) = (if y = 0 then inf_of_sign (sgn x) else Num (x / y))"
| "divide_jsnum NaN _ = NaN"
| "divide_jsnum _ NaN = NaN"
| "divide_jsnum (Num x) _ = Num 0"
| "divide_jsnum a (Num y) = inf_of_sign (sign_of a * (if y < 0 then - 1 else 1))"
| "divide_jsnum _ _ = NaN"

definition inverse_jsnum :: "jsnum \<Rightarrow> jsnum" where
  "inverse_jsnum a = divide (Num 1) a"

instance ..

end

text \<open>The comparison \<^verbatim>\<open>a < b\<close>: false when either side is \<^verbatim>\<open>NaN\<close>.\<close>

fun js_less :: "jsnum \<Rightarrow> jsnum \<Rightarrow> bool" where
  "js_less (Num x) (Num y) = (x < y)"
| "js_less NaN _ = False"
| "js_less _ NaN = False"
| "js_less NInf b = (b \<noteq> NInf)"
| "js_less a PInf = (a \<noteq> PInf)"
| "js_less _ _ = False"

fun Math_sqrt :: "jsnum \<Rightarrow> jsnum" where
  "Math_sqrt (Num x) = (if x < 0 then NaN else Num (sqrt x))"
| "Math_sqrt PInf = PInf"
| "Math_sqrt _ = NaN"

fun Math_log :: "jsnum \<Rightarrow> jsnum" where
  "Math_log (Num x) = (if x < 0 then NaN else if x = 0 then NInf else Num (ln x))"
| "Math_log PInf = PInf"
| "Math_log _ = NaN"

fun Math_cos :: "jsnum \<Rightarrow> jsnum" where
  "Math_cos (Num x) = Num (cos x)"
| "Math_cos _ = NaN"

fun Math_floor :: "jsnum \<Rightarrow> jsnum" where
  "Math_floor (Num x) = Num (of_int \<lfloor>x\<rfloor>)"
| "Math_floor a = a"

definition Math_max :: "jsnum \<Rightarrow> jsnum \<Rightarrow> jsnum" where
  "Math_max a b = (if a = NaN \<or> b = NaN then NaN else if js_less a b then b else a)"

definition Math_min :: "jsnum \<Rightarrow> jsnum \<Rightarrow> jsnum" where
  "Math_min a b = (if a = NaN \<or> b = NaN then NaN else if js_less b a then b else a)"

text \<open>
  An array read \<^verbatim>\<open>xs[idx]\<close> used as an operand of \<^verbatim>\<open>+\<close> or \<^verbatim>\<open>*\<close>: outside the array, or
  at an index that is no integer, the read is \<^verbatim>\<open>undefined\<close>, which arithmetic takes as
  \<^verbatim>\<open>NaN\<close>.
\<close>

definition at_nat :: "jsnum list \<Rightarrow> nat \<Rightarrow> jsnum" where
  "at_nat xs i = (if i < length xs then xs ! i else NaN)"

fun at_num :: "jsnum list \<Rightarrow> jsnum \<Rightarrow> jsnum" where
  "at_num xs (Num x) = (if 0 \<le> x \<and> x \<in> \<int> then at_nat xs (nat \<lfloor>x\<rfloor>) else NaN)"
| "at_num xs _ = NaN"

text \<open>
  The indices a loop \<^verbatim>\<open>for (let b = 0; b < n; b++)\<close> visits. With \<open>n\<close> infinite the loop
  does not end: \<open>None\<close>.
\<close>

fun for_upto :: "jsnum \<Rightarrow> nat list option" where
  "for_upto (Num x) = Some [0..<nat \<lceil>x\<rceil>]"
| "for_upto PInf = None"
| "for_upto _ = Some []"

subsection \<open>gaussianRandom\<close>

definition gaussianRandom :: "rng \<Rightarrow> jsnum \<Rightarrow> jsnum \<Rightarrow> jsnum \<times> rng" where
  "gaussianRandom r mean stdDev =
     (let (u1, r1) = rand r;
          (u2, r2) = rand r1;
          z = Math_sqrt (Num (- 2) * Math_log (Num u1)) * Math_cos (Num (2 * pi) * Num u2)
      in (z * stdDev + mean, r2))"

subsection \<open>parseInt and the query parameters\<close>

text \<open>
  \<^verbatim>\<open>parseInt(string)\<close> of ECMAScript with no radix: leading white space is skipped, a sign
  is read, a prefix \<^verbatim>\<open>0x\<close> selects radix 16, and the longest run of digits is the value;
  with no digit the result is \<^verbatim>\<open>NaN\<close>. The value is the exact integer.
\<close>

definition is_white :: "16 word \<Rightarrow> bool" where
  "is_white c \<longleftrightarrow> c \<in> {0x9, 0xA, 0xB, 0xC, 0xD, 0x20, 0xA0, 0x1680, 0x2028, 0x2029,
                         0x202F, 0x205F, 0x3000, 0xFEFF} \<or> (0x2000 \<le> c \<and> c \<le> 0x200A)"

definition digit_of :: "16 word \<Rightarrow> nat option" where
  "digit_of c = (if 0x30 \<le> c \<and> c \<le> 0x39 then Some (unat c - 0x30)
                 else if 0x61 \<le> c \<and> c \<le> 0x7A then Some (unat c - 0x61 + 10)
                 else if 0x41 \<le> c \<and> c \<le> 0x5A then Some (unat c - 0x41 + 10)
                 else None)"

definition is_digit :: "nat \<Rightarrow> 16 word \<Rightarrow> bool" where
  "is_digit radix c = (case digit_of c of None \<Rightarrow> False | Some d \<Rightarrow> d < radix)"

definition read_sign :: "jsstring \<Rightarrow> int \<times> jsstring" where
  "read_sign s = (case s of [] \<Rightarrow> (1, [])
                  | c # cs \<Rightarrow> if c = 0x2D then (- 1, cs) else if c = 0x2B then (1, cs) else (1, s))"

definition read_radix :: "jsstring \<Rightarrow> nat \<times> jsstring" where
  "read_radix s = (case s of a # b # cs \<Rightarrow>
                     if a = 0x30 \<and> (b = 0x78 \<or> b = 0x58) then (16, cs) else (10, s)
                   | _ \<Rightarrow> (10, s))"

definition parseInt :: "jsstring \<Rightarrow> jsnum" where
  "parseInt str =
     (let (sign, s) = read_sign (dropWhile is_white str);
          (radix, s') = read_radix s;
          z = takeWhile (is_digit radix) s'
      in if z = [] then NaN
         else Num (of_int (sign * int (foldl (\<lambda>a c. a * radix + the (digit_of c)) 0 z))))"

text \<open>
  The parsed query string: the pairs of \<^verbatim>\<open>URLSearchParams\<close> in their order;
  \<^verbatim>\<open>get\<close> returns the first value of a name, or \<^verbatim>\<open>null\<close>.
\<close>

type_synonym searchParams = "(jsstring \<times> jsstring) list"

definition sp_get :: "searchParams \<Rightarrow> jsstring \<Rightarrow> jsstring option" where
  "sp_get sp name = map_of sp name"

text \<open>\<^verbatim>\<open>searchParams.get("bin_size") || "20"\<close>: \<^verbatim>\<open>null\<close> and the empty string are falsy.\<close>

definition bin_size_arg :: "searchParams \<Rightarrow> jsstring" where
  "bin_size_arg sp = (case sp_get sp (ascii ''bin_size'') of
                        None \<Rightarrow> ascii ''20''
                      | Some v \<Rightarrow> if v = [] then ascii ''20'' else v)"

definition binSize_of :: "searchParams \<Rightarrow> jsnum" where
  "binSize_of sp = Math_min (Num 100) (Math_max (Num 5) (parseInt (bin_size_arg sp)))"

subsection \<open>The grids\<close>

definition nWavelengths :: nat where
  "nWavelengths = 200"

definition wavelengths :: "real list" where
  "wavelengths = map (\<lambda>i. 0.6 + (real i * (5.3 - 0.6)) / (real nWavelengths - 1)) [0..<nWavelengths]"

definition nTimes :: nat where
  "nTimes = 100"

definition phase :: "real list" where
  "phase = map (\<lambda>i. - 0.05 + (real i * 0.1) / (real nTimes - 1)) [0..<nTimes]"

subsection \<open>transitModel\<close>

definition transitDuration :: real where
  "transitDuration = 0.03"

definition ingress :: real where
  "ingress = 0.005"

definition transitModel :: "real \<Rightarrow> real \<Rightarrow> real" where
  "transitModel t depth =
     (let halfDuration = transitDuration / 2;
          absT = \<bar>t\<bar>
      in if absT \<ge> halfDuration then 1
         else if absT > halfDuration - ingress
         then (let progress = (absT - halfDuration + ingress) / ingress
               in 1 - depth * (1 - progress))
         else 1 - depth)"

subsection \<open>Molecular features\<close>

type_synonym feature = "real \<times> real \<times> real"

definition molecularEffects :: "(string \<times> feature list) list" where
  "molecularEffects =
     [(''H2O'', [(1.35, 1.45, 0.003), (1.8, 2.0, 0.004), (2.7, 3.0, 0.005)]),
      (''CO2'', [(4.2, 4.4, 0.006)]),
      (''CO'', [(4.5, 5.0, 0.004)]),
      (''CH4'', [(2.2, 2.4, 0.002), (3.3, 3.5, 0.003)])]"

definition baseDepth :: real where
  "baseDepth = 0.012"

text \<open>The body of the innermost loop over the features of one molecule.\<close>

definition add_feature :: "real \<Rightarrow> real \<Rightarrow> feature \<Rightarrow> real" where
  "add_feature wl depth f =
     (case f of (wlMin, wlMax, extraDepth) \<Rightarrow>
        if wl \<ge> wlMin \<and> wl \<le> wlMax
        then (let center = (wlMin + wlMax) / 2;
                  width = (wlMax - wlMin) / 2
              in depth + extraDepth * exp (- ((wl - center) ^ 2) / (2 * (width / 2) ^ 2)))
        else depth)"

definition channel_depth :: "real \<Rightarrow> real" where
  "channel_depth wl =
     foldl (\<lambda>depth (name, features). foldl (add_feature wl) depth features)
       baseDepth molecularEffects"

subsection \<open>The flux cube\<close>

text \<open>
  An assignment \<^verbatim>\<open>row[j] = v\<close>: at \<open>j = length row\<close> the array grows by one; beyond it
  the array gets holes, which read as \<^verbatim>\<open>undefined\<close>.
\<close>

definition js_set :: "jsnum list \<Rightarrow> nat \<Rightarrow> jsnum \<Rightarrow> jsnum list" where
  "js_set row j v = (if j < length row then row[j := v]
                     else row @ replicate (j - length row) NaN @ [v])"

text \<open>
  The loops at lines 104 to 128, with the cube and the generator as the state. The
  array \<^verbatim>\<open>transitDepthRaw\<close> is written there and never read: it is left out.
\<close>

definition synth_cell :: "real \<Rightarrow> nat \<Rightarrow> jsnum list list \<times> rng \<Rightarrow> nat \<Rightarrow> jsnum list list \<times> rng" where
  "synth_cell depth j st i =
     (case st of (flux, r) \<Rightarrow>
        let baseFlux = transitModel (phase ! i) depth;
            (noise, r') = gaussianRandom r (Num 0) (Num 0.0005)
        in (flux[i := js_set (flux ! i) j (Num baseFlux + noise)], r'))"

definition synth_channel :: "jsnum list list \<times> rng \<Rightarrow> nat \<Rightarrow> jsnum list list \<times> rng" where
  "synth_channel st j =
     (let wl = wavelengths ! j;
          depth = channel_depth wl
      in foldl (synth_cell depth j) st [0..<nTimes])"

definition synthesize :: "rng \<Rightarrow> jsnum list list \<times> rng" where
  "synthesize r = foldl synth_channel (replicate nTimes [], r) [0..<nWavelengths]"

subsection \<open>The transmission spectrum\<close>

definition inTransitMask :: "real list \<Rightarrow> bool list" where
  "inTransitMask ph = map (\<lambda>p. \<bar>p\<bar> < transitDuration / 2) ph"

definition outTransitMask :: "real list \<Rightarrow> bool list" where
  "outTransitMask ph = map (\<lambda>p. \<bar>p\<bar> > transitDuration / 2 + 0.01) ph"

text \<open>\<^verbatim>\<open>mask[i]\<close> as a condition: \<^verbatim>\<open>undefined\<close>, read outside the array, is falsy.\<close>

definition mask_at :: "bool list \<Rightarrow> nat \<Rightarrow> bool" where
  "mask_at m i \<longleftrightarrow> i < length m \<and> m ! i"

text \<open>
  \<^verbatim>\<open>flux[i][j]\<close> as an operand. The cube has a row for every time index (lines 100 to 102
  and 176 to 178), so the read of the row never fails; a missing row is taken as empty.
\<close>

definition row :: "jsnum list list \<Rightarrow> nat \<Rightarrow> jsnum list" where
  "row flux i = (if i < length flux then flux ! i else [])"

definition cell :: "jsnum list list \<Rightarrow> nat \<Rightarrow> nat \<Rightarrow> jsnum" where
  "cell flux i j = at_nat (row flux i) j"

record tally =
  inSum :: jsnum
  inCount :: nat
  inSqSum :: jsnum
  outSum :: jsnum
  outCount :: nat
  outSqSum :: jsnum

definition tally0 :: tally where
  "tally0 = \<lparr>inSum = Num 0, inCount = 0, inSqSum = Num 0,
             outSum = Num 0, outCount = 0, outSqSum = Num 0\<rparr>"

definition tally_step :: "bool list \<Rightarrow> bool list \<Rightarrow> jsnum list list \<Rightarrow> nat \<Rightarrow> tally \<Rightarrow> nat \<Rightarrow> tally" where
  "tally_step inM outM flux j a i =
     (let a1 = (if mask_at inM i
                then a\<lparr>inSum := inSum a + cell flux i j,
                       inSqSum := inSqSum a + cell flux i j * cell flux i j,
                       inCount := inCount a + 1\<rparr>
                else a)
      in if mask_at outM i
         then a1\<lparr>outSum := outSum a1 + cell flux i j,
                 outSqSum := outSqSum a1 + cell flux i j * cell flux i j,
                 outCount := outCount a1 + 1\<rparr>
         else a1)"

definition channel_spectrum :: "real list \<Rightarrow> jsnum list list \<Rightarrow> nat \<Rightarrow> jsnum \<times> jsnum" where
  "channel_spectrum ph flux j =
     (let a = foldl (tally_step (inTransitMask ph) (outTransitMask ph) flux j) tally0 [0..<nTimes];
          inMean = inSum a / Num (real (inCount a));
          outMean = outSum a / Num (real (outCount a));
          inStd = Math_sqrt (inSqSum a / Num (real (inCount a)) - inMean * inMean);
          outStd = Math_sqrt (outSqSum a / Num (real (outCount a)) - outMean * outMean)
      in ((Num 1 - inMean / outMean) * Num 1000000,
          (Math_sqrt (inStd * inStd + outStd * outStd) / outMean) * Num 1000000))"

definition transmission :: "real list \<Rightarrow> jsnum list list \<Rightarrow> jsnum list \<times> jsnum list" where
  "transmission ph flux =
     (let cs = map (channel_spectrum ph flux) [0..<nWavelengths]
      in (map fst cs, map snd cs))"

subsection \<open>Binning\<close>

text \<open>
  The sum a bin \<open>b\<close> accumulates over \<^verbatim>\<open>k\<close>, reading \<^verbatim>\<open>xs[b * binSize + k]\<close>.
\<close>

definition bin_sum :: "jsnum list \<Rightarrow> jsnum \<Rightarrow> nat \<Rightarrow> nat list \<Rightarrow> jsnum" where
  "bin_sum xs binSize b ks =
     foldl (\<lambda>s k. s + at_num xs (Num (real b) * binSize + Num (real k))) (Num 0) ks"

record binned =
  wavelengthsBinned :: "jsnum list"
  transitDepthBinned :: "jsnum list"
  transitDepthErrBinned :: "jsnum list"
  fluxBinned :: "jsnum list list"

text \<open>
  The loops at lines 180 to 203. Every \<^verbatim>\<open>push\<close> appends one value per bin, so each
  output is a map over the bins; the loop over \<^verbatim>\<open>k\<close> is entered only inside a bin.
\<close>

definition binner :: "jsnum \<Rightarrow> jsnum \<Rightarrow> jsnum list \<Rightarrow> jsnum list \<Rightarrow> jsnum list \<Rightarrow> jsnum list list \<Rightarrow> binned option" where
  "binner binSize nBins wls td tde flux =
     (case for_upto nBins of
        None \<Rightarrow> None
      | Some bs \<Rightarrow>
          if bs = []
          then Some \<lparr>wavelengthsBinned = [], transitDepthBinned = [],
                     transitDepthErrBinned = [], fluxBinned = replicate nTimes []\<rparr>
          else (case for_upto binSize of
                  None \<Rightarrow> None
                | Some ks \<Rightarrow>
                    Some \<lparr>wavelengthsBinned = map (\<lambda>b. bin_sum wls binSize b ks / binSize) bs,
                          transitDepthBinned = map (\<lambda>b. bin_sum td binSize b ks / binSize) bs,
                          transitDepthErrBinned =
                            map (\<lambda>b. bin_sum tde binSize b ks / binSize / Math_sqrt binSize) bs,
                          fluxBinned =
                            map (\<lambda>i. map (\<lambda>b. bin_sum (row flux i) binSize b ks / binSize) bs)
                              [0..<nTimes]\<rparr>))"

subsection \<open>The light curve\<close>

definition lightcurveFlux :: "jsnum \<Rightarrow> jsnum list list \<Rightarrow> jsnum list option" where
  "lightcurveFlux nBins fb =
     (case for_upto nBins of
        None \<Rightarrow> None
      | Some js \<Rightarrow>
          Some (map (\<lambda>i. foldl (\<lambda>sum j. sum + cell fb i j) (Num 0) js / nBins) [0..<nTimes]))"

subsection \<open>The handler\<close>

record response =
  r_target :: jsstring
  r_data_source :: string
  r_wavelengths :: "jsnum list"
  r_phase :: "real list"
  r_flux :: "jsnum list list"
  r_ts_wavelengths :: "jsnum list"
  r_transit_depth_ppm :: "jsnum list"
  r_transit_depth_err_ppm :: "jsnum list"
  r_lc_phase :: "real list"
  r_lc_flux :: "jsnum list"
  r_instrument :: string
  r_mode :: string
  r_wavelength_range :: "real \<times> real"
  r_n_integrations :: nat

text \<open>
  The handler, from the route parameter \<open>target\<close> and the query parameters. \<open>None\<close>: a
  loop of the handler does not end.
\<close>

definition GET :: "jsstring \<Rightarrow> searchParams \<Rightarrow> response option" where
  "GET target sp =
     (let binSize = binSize_of sp;
          seed = hashString target;
          (flux, r') = synthesize (seededRandom seed);
          (transitDepth, transitDepthErr) = transmission phase flux;
          nBins = Math_floor (Num (real nWavelengths) / binSize)
      in case binner binSize nBins (map Num wavelengths) transitDepth transitDepthErr flux of
           None \<Rightarrow> None
         | Some bd \<Rightarrow>
             (case lightcurveFlux nBins (fluxBinned bd) of
                None \<Rightarrow> None
              | Some lc \<Rightarrow>
                  Some \<lparr>r_target = target,
                        r_data_source = ''simulated'',
                        r_wavelengths = wavelengthsBinned bd,
                        r_phase = phase,
                        r_flux = fluxBinned bd,
                        r_ts_wavelengths = wavelengthsBinned bd,
                        r_transit_depth_ppm = transitDepthBinned bd,
                        r_transit_depth_err_ppm = transitDepthErrBinned bd,
                        r_lc_phase = phase,
                        r_lc_flux = lc,
                        r_instrument = ''NIRSpec (simulated)'',
                        r_mode = ''G395H'',
                        r_wavelength_range = (wavelengths ! 0, wavelengths ! (length wavelengths - 1)),
                        r_n_integrations = nTimes\<rparr>))"

section \<open>The behaviour the specification describes\<close>

subsection \<open>Molecular absorption\<close>

text \<open>
  All ranges of all molecules; whether a range contains a wavelength; and the Gaussian
  bump of a range: centred at the midpoint, its width parameter half of the half-width
  of the range, scaled by the extra depth.
\<close>

definition features :: "feature list" where
  "features = concat (map snd molecularEffects)"

definition in_band :: "real \<Rightarrow> feature \<Rightarrow> bool" where
  "in_band wl f = (case f of (wlMin, wlMax, extraDepth) \<Rightarrow> wlMin \<le> wl \<and> wl \<le> wlMax)"

definition bump :: "real \<Rightarrow> feature \<Rightarrow> real" where
  "bump wl f =
     (case f of (wlMin, wlMax, extraDepth) \<Rightarrow>
        extraDepth * exp (- ((wl - (wlMin + wlMax) / 2) ^ 2) / (2 * (((wlMax - wlMin) / 2) / 2) ^ 2)))"

subsection \<open>Sample statistics\<close>

definition total :: "jsnum list \<Rightarrow> jsnum" where
  "total xs = foldl (+) (Num 0) xs"

definition mean :: "jsnum list \<Rightarrow> jsnum" where
  "mean xs = total xs / Num (real (length xs))"

text \<open>The population standard deviation, \<open>sqrt (E[x\<^sup>2] - E[x]\<^sup>2)\<close>.\<close>

definition std :: "jsnum list \<Rightarrow> jsnum" where
  "std xs = Math_sqrt (mean (map (\<lambda>x. x * x) xs) - mean xs * mean xs)"

definition in_transit :: "real \<Rightarrow> bool" where
  "in_transit p \<longleftrightarrow> \<bar>p\<bar> < transitDuration / 2"

definition out_of_transit :: "real \<Rightarrow> bool" where
  "out_of_transit p \<longleftrightarrow> \<bar>p\<bar> > transitDuration / 2 + 0.01"

text \<open>The flux of channel \<open>j\<close> at the time samples whose phase satisfies \<open>P\<close>.\<close>

definition samples :: "(real \<Rightarrow> bool) \<Rightarrow> real list \<Rightarrow> jsnum list list \<Rightarrow> nat \<Rightarrow> jsnum list" where
  "samples P ph flux j =
     map (\<lambda>i. cell flux i j) (filter (\<lambda>i. i < length ph \<and> P (ph ! i)) [0..<nTimes])"

definition depth_ppm :: "jsnum list \<Rightarrow> jsnum list \<Rightarrow> jsnum" where
  "depth_ppm ins outs = (Num 1 - mean ins / mean outs) * Num 1000000"

definition depth_err_ppm :: "jsnum list \<Rightarrow> jsnum list \<Rightarrow> jsnum" where
  "depth_err_ppm ins outs =
     Math_sqrt (std ins * std ins + std outs * std outs) / mean outs * Num 1000000"

subsection \<open>Bins\<close>

text \<open>The \<open>B\<close> constituent values of bin \<open>b\<close>.\<close>

definition chunk :: "'a list \<Rightarrow> nat \<Rightarrow> nat \<Rightarrow> 'a list" where
  "chunk xs B b = take B (drop (b * B) xs)"

subsection \<open>The first cell of the cube\<close>

text \<open>The cube has a first row, the row has a first cell, and the cell holds \<open>v\<close>.\<close>

definition first_is :: "jsnum \<Rightarrow> jsnum list list \<Rightarrow> bool" where
  "first_is v flux \<longleftrightarrow> flux \<noteq> [] \<and> flux ! 0 \<noteq> [] \<and> flux ! 0 ! 0 = v"

section \<open>Properties\<close>

subsection \<open>The seed and the generator\<close>

lemma toInt32_cong:
  "x mod 2 ^ 32 = y mod 2 ^ 32 \<Longrightarrow> toInt32 x = toInt32 y"
  unfolding toInt32_def by (metis mod_add_cong)

lemma toInt32_mod: "toInt32 x mod 2 ^ 32 = x mod 2 ^ 32"
proof -
  have "toInt32 x mod 2 ^ 32 = ((x + 2 ^ 31) mod 2 ^ 32 - 2 ^ 31) mod 2 ^ 32"
    by (simp add: toInt32_def)
  also have "\<dots> = (x + 2 ^ 31 - 2 ^ 31) mod 2 ^ 32"
    by (rule mod_diff_left_eq)
  finally show ?thesis by simp
qed

lemma toInt32_range: "- (2 ^ 31) \<le> toInt32 x \<and> toInt32 x < 2 ^ 31"
  unfolding toInt32_def
  using pos_mod_bound [of "2 ^ 32" "x + 2 ^ 31"] pos_mod_sign [of "2 ^ 32" "x + 2 ^ 31"]
  by simp

lemma shl32_5: "shl32 h 5 mod 2 ^ 32 = (h * 32) mod 2 ^ 32"
proof -
  have "shl32 h 5 mod 2 ^ 32 = (toInt32 h * 32) mod 2 ^ 32"
    unfolding shl32_def using toInt32_mod [of "toInt32 h * 2 ^ (5 mod 32)"] by simp
  also have "\<dots> = (h * 32) mod 2 ^ 32"
    by (rule mod_mult_cong [OF toInt32_mod refl])
  finally show ?thesis .
qed

lemma hash_round_eq: "hash_round str h i = toInt32 (h * 31 + charCodeAt str i)"
proof -
  have "(shl32 h 5 - h) mod 2 ^ 32 = (h * 32 - h) mod 2 ^ 32"
    by (rule mod_diff_cong [OF shl32_5 refl])
  then have "(shl32 h 5 - h + charCodeAt str i) mod 2 ^ 32 = (h * 32 - h + charCodeAt str i) mod 2 ^ 32"
    by (rule mod_add_cong [OF _ refl])
  moreover have "h * 32 - h = h * 31"
    by simp
  ultimately have "(shl32 h 5 - h + charCodeAt str i) mod 2 ^ 32 = (h * 31 + charCodeAt str i) mod 2 ^ 32"
    by simp
  then show ?thesis
    unfolding hash_round_def by (rule toInt32_cong)
qed

lemma foldl_index:
  "foldl (\<lambda>a i. f a (xs ! i)) a [0..<length xs] = foldl f a xs"
proof (induction xs rule: rev_induct)
  case Nil
  show ?case by simp
next
  case (snoc x xs)
  have "foldl (\<lambda>a i. f a ((xs @ [x]) ! i)) a [0..<length xs] = foldl (\<lambda>a i. f a (xs ! i)) a [0..<length xs]"
    by (rule foldl_cong) (simp_all add: nth_append)
  with snoc show ?case by simp
qed

lemma hash_loop:
  "foldl (hash_round str) 0 [0..<length str] = foldl (\<lambda>h c. toInt32 (h * 31 + uint c)) 0 str"
proof -
  have "hash_round str = (\<lambda>a i. (\<lambda>h c. toInt32 (h * 31 + uint c)) a (str ! i))"
    by (intro ext) (simp add: hash_round_eq charCodeAt_def)
  then show ?thesis
    using foldl_index [of "\<lambda>h c. toInt32 (h * 31 + uint c)" str 0] by simp
qed

lemma hash_wrap_once:
  "foldl (\<lambda>h c. toInt32 (h * 31 + uint c)) 0 (str :: jsstring)
     = toInt32 (foldl (\<lambda>h c. h * 31 + uint c) 0 str)"
proof (induction str rule: rev_induct)
  case Nil
  show ?case by (simp add: toInt32_def)
next
  case (snoc c str)
  have "(toInt32 (foldl (\<lambda>h c. h * 31 + uint c) 0 str) * 31 + uint c) mod 2 ^ 32
          = (foldl (\<lambda>h c. h * 31 + uint c) 0 str * 31 + uint c) mod 2 ^ 32"
    by (rule mod_add_cong [OF mod_mult_cong [OF toInt32_mod refl] refl])
  then have "toInt32 (toInt32 (foldl (\<lambda>h c. h * 31 + uint c) 0 str) * 31 + uint c)
          = toInt32 (foldl (\<lambda>h c. h * 31 + uint c) 0 str * 31 + uint c)"
    by (rule toInt32_cong)
  with snoc show ?case by simp
qed

lemma hashString_poly:
  "hashString str = \<bar>toInt32 (foldl (\<lambda>h c. h * 31 + uint c) 0 str)\<bar>"
  by (simp add: hashString_def hash_loop hash_wrap_once)

lemma rand_nonneg:
  assumes "0 \<le> seed"
  shows "snd (rand seed) = (seed * 9301 + 49297) mod 233280"
    and "fst (rand seed) = real_of_int (snd (rand seed)) / 233280"
    and "0 \<le> fst (rand seed)" and "fst (rand seed) < 1"
proof -
  have p: "0 < seed * 9301 + 49297" using assms by simp
  then show s: "snd (rand seed) = (seed * 9301 + 49297) mod 233280"
    by (simp add: rand_def js_rem_def Let_def)
  show "fst (rand seed) = real_of_int (snd (rand seed)) / 233280"
    by (simp add: rand_def Let_def)
  have "0 \<le> snd (rand seed)" "snd (rand seed) < 233280"
    unfolding s by simp_all
  then show "0 \<le> fst (rand seed)" "fst (rand seed) < 1"
    by (simp_all add: rand_def Let_def)
qed

text \<open>
  Claim C9. The seed is the absolute value of the accumulation \<open>hash * 31 + code\<close> over
  the code units of the name, in their order, wrapped once to the signed 32-bit range:
  the wrap after every round and the shift \<^verbatim>\<open>(hash << 5) - hash\<close> of the code compute
  the same. The seed lies between \<open>0\<close> and \<open>2 ^ 31\<close>; the order of the code units
  matters (\<^verbatim>\<open>"ab"\<close> and \<^verbatim>\<open>"ba"\<close> differ). From every state \<open>seed \<ge> 0\<close>, the states the
  generator holds, a call sets the state to \<open>(seed * 9301 + 49297) mod 233280\<close> and
  returns the new state over \<open>233280\<close>, a value in \<open>[0, 1)\<close>.
\<close>

theorem seed_and_next:
  "hashString str = \<bar>toInt32 (foldl (\<lambda>h c. h * 31 + uint c) 0 str)\<bar>
   \<and> 0 \<le> hashString str \<and> hashString str \<le> 2 ^ 31
   \<and> hashString (ascii ''ab'') \<noteq> hashString (ascii ''ba'')
   \<and> (0 \<le> seed \<longrightarrow>
        snd (rand seed) = (seed * 9301 + 49297) mod 233280
        \<and> fst (rand seed) = real_of_int (snd (rand seed)) / 233280
        \<and> 0 \<le> fst (rand seed) \<and> fst (rand seed) < 1)"
proof -
  have range: "0 \<le> hashString str \<and> hashString str \<le> 2 ^ 31"
    unfolding hashString_poly
    using toInt32_range [of "foldl (\<lambda>h c. h * 31 + uint c) 0 str"] by (simp add: abs_le_iff)
  have order: "hashString (ascii ''ab'') \<noteq> hashString (ascii ''ba'')"
    by (simp add: hashString_poly ascii_def toInt32_def)
  show ?thesis
    using hashString_poly range order rand_nonneg by blast
qed

theorem seed_and_next_witness:
  "hashString (ascii ''WASP-39 b'') = 1965633678
   \<and> (0::int) \<le> 1965633678
   \<and> snd (rand 1965633678) = 1975 \<and> fst (rand 1965633678) = 1975 / 233280"
proof -
  have "hashString (ascii ''WASP-39 b'') = \<bar>toInt32 (foldl (\<lambda>h c. h * 31 + uint c) 0 (ascii ''WASP-39 b''))\<bar>"
    using seed_and_next [of "ascii ''WASP-39 b''" 0] by blast
  then have h: "hashString (ascii ''WASP-39 b'') = 1965633678"
    by (simp add: ascii_def toInt32_def)
  have "snd (rand 1965633678) = 1975 \<and> fst (rand 1965633678) = 1975 / 233280"
    using seed_and_next [of "[]" 1965633678] by simp
  with h show ?thesis by simp
qed

subsection \<open>The transit model\<close>

text \<open>
  Claim C6. At phase 0 the flux is \<open>1 - depth\<close>; at or beyond half the duration it is 1;
  strictly between \<open>halfDuration - ingress\<close> and \<open>halfDuration\<close> it is linear in the
  distance from mid-transit, from \<open>1 - depth\<close> at the inner end to 1 at the outer end;
  inside that it is \<open>1 - depth\<close>; and the model is symmetric about phase 0.
\<close>

theorem transit_shape:
  "transitModel 0 depth = 1 - depth
   \<and> (transitDuration / 2 \<le> \<bar>t\<bar> \<longrightarrow> transitModel t depth = 1)
   \<and> (transitDuration / 2 - ingress < \<bar>t\<bar> \<and> \<bar>t\<bar> < transitDuration / 2 \<longrightarrow>
         transitModel t depth
           = (1 - depth) + depth * ((\<bar>t\<bar> - (transitDuration / 2 - ingress)) / ingress))
   \<and> (\<bar>t\<bar> \<le> transitDuration / 2 - ingress \<longrightarrow> transitModel t depth = 1 - depth)
   \<and> transitModel (- t) depth = transitModel t depth"
proof -
  have zero: "transitModel 0 depth = 1 - depth"
    by (simp add: transitModel_def transitDuration_def ingress_def)
  have out: "transitDuration / 2 \<le> \<bar>t\<bar> \<longrightarrow> transitModel t depth = 1"
    by (simp add: transitModel_def)
  have ramp: "transitDuration / 2 - ingress < \<bar>t\<bar> \<and> \<bar>t\<bar> < transitDuration / 2 \<longrightarrow>
         transitModel t depth
           = (1 - depth) + depth * ((\<bar>t\<bar> - (transitDuration / 2 - ingress)) / ingress)"
    by (simp add: transitModel_def Let_def ingress_def algebra_simps)
  have flat: "\<bar>t\<bar> \<le> transitDuration / 2 - ingress \<longrightarrow> transitModel t depth = 1 - depth"
    by (simp add: transitModel_def Let_def ingress_def transitDuration_def)
  have sym: "transitModel (- t) depth = transitModel t depth"
    by (simp add: transitModel_def)
  show ?thesis
    using zero out ramp flat sym by blast
qed

theorem transit_shape_witness:
  "transitDuration / 2 \<le> \<bar>0.02 :: real\<bar> \<and> transitModel 0.02 0.012 = 1
   \<and> transitDuration / 2 - ingress < \<bar>- 0.012 :: real\<bar> \<and> \<bar>- 0.012 :: real\<bar> < transitDuration / 2
   \<and> transitModel (- 0.012) 0.012 = 0.9928
   \<and> \<bar>0.004 :: real\<bar> \<le> transitDuration / 2 - ingress \<and> transitModel 0.004 0.012 = 0.988"
proof -
  have a: "transitDuration / 2 \<le> \<bar>0.02 :: real\<bar>"
    by (simp add: transitDuration_def)
  have b: "transitDuration / 2 - ingress < \<bar>- 0.012 :: real\<bar> \<and> \<bar>- 0.012 :: real\<bar> < transitDuration / 2"
    by (simp add: transitDuration_def ingress_def)
  have c: "\<bar>0.004 :: real\<bar> \<le> transitDuration / 2 - ingress"
    by (simp add: transitDuration_def ingress_def)
  have "transitModel 0.02 0.012 = 1"
    using a transit_shape [of "0.012" "0.02"] by blast
  moreover have "transitModel (- 0.012) 0.012 = 0.9928"
    using b transit_shape [of "0.012" "- 0.012"] by (simp add: transitDuration_def ingress_def)
  moreover have "transitModel 0.004 0.012 = 0.988"
    using c transit_shape [of "0.012" "0.004"] by simp
  ultimately show ?thesis
    using a b c by blast
qed

subsection \<open>Molecular absorption\<close>

lemma add_feature_bump:
  "add_feature wl d f = (if in_band wl f then d + bump wl f else d)"
  by (cases f) (simp add: add_feature_def in_band_def bump_def Let_def)

lemma foldl_add_feature:
  "foldl (add_feature wl) d fs = d + sum_list (map (bump wl) (filter (in_band wl) fs))"
  by (induction fs arbitrary: d) (simp_all add: add_feature_bump)

lemma foldl_molecules:
  "foldl (\<lambda>depth (name, fs). foldl (add_feature wl) depth fs) d ms
     = d + sum_list (map (bump wl) (filter (in_band wl) (concat (map snd ms))))"
  by (induction ms arbitrary: d) (simp_all add: foldl_add_feature split: prod.splits)

lemma bump_nonneg: "f \<in> set features \<Longrightarrow> 0 \<le> bump wl f"
  by (auto simp: features_def molecularEffects_def bump_def)

text \<open>
  Claim C7. The depth of a channel is the baseline plus the sum of the bumps of all
  ranges that contain the wavelength: nothing caps or rescales the sum. It is never
  below the baseline.
\<close>

theorem superposed_depth:
  "channel_depth wl = baseDepth + sum_list (map (bump wl) (filter (in_band wl) features))
   \<and> baseDepth \<le> channel_depth wl"
proof -
  have eq: "channel_depth wl = baseDepth + sum_list (map (bump wl) (filter (in_band wl) features))"
    by (simp add: channel_depth_def features_def foldl_molecules)
  have "0 \<le> sum_list (map (bump wl) (filter (in_band wl) features))"
    by (rule sum_list_nonneg) (auto simp: bump_nonneg)
  with eq show ?thesis by simp
qed

subsection \<open>The Gaussian sampler\<close>

lemma rand_state:
  "0 \<le> r \<Longrightarrow> snd (rand r) = (r * 9301 + 49297) mod 233280"
  by (simp add: rand_def js_rem_def Let_def)

lemma rand_value: "fst (rand r) = real_of_int (snd (rand r)) / 233280"
  by (simp add: rand_def Let_def)

lemma rand_state_range:
  assumes "0 \<le> r"
  shows "0 \<le> snd (rand r)" and "snd (rand r) < 233280"
  using assms by (simp_all add: rand_state)

lemma gaussianRandom_value:
  "fst (gaussianRandom r m sd)
     = Math_sqrt (Num (- 2) * Math_log (Num (fst (rand r))))
         * Math_cos (Num (2 * pi) * Num (fst (rand (snd (rand r))))) * sd + m"
  by (simp add: gaussianRandom_def Let_def split: prod.splits)

lemma cos_after_zero: "0 < cos (2 * pi * (49297 / 233280))"
proof (rule cos_gt_zero_pi)
  have "0 < pi" by (rule pi_gt_zero)
  then show "- (pi / 2) < 2 * pi * (49297 / 233280)" by simp
  show "2 * pi * (49297 / 233280) < pi / 2" using \<open>0 < pi\<close> by simp
qed

lemma gaussian_at_zero:
  assumes "0 \<le> r" and "snd (rand r) = 0"
  shows "fst (gaussianRandom r (Num 0) (Num 0.0005)) = PInf"
proof -
  have u1: "fst (rand r) = 0"
    using assms by (simp add: rand_value)
  have "snd (rand (snd (rand r))) = 49297"
    using assms by (simp add: rand_state)
  then have u2: "fst (rand (snd (rand r))) = 49297 / 233280"
    by (simp add: rand_value)
  show ?thesis
    using cos_after_zero
    by (simp add: gaussianRandom_value u1 u2 inf_of_sign_def sgn_if)
qed

lemma gaussian_finite:
  assumes "0 \<le> r" and "snd (rand r) \<noteq> 0"
  shows "\<exists>x. fst (gaussianRandom r (Num 0) (Num 0.0005)) = Num x"
proof -
  have "0 < snd (rand r)" "snd (rand r) < 233280"
    using assms rand_state_range [of r] by simp_all
  then have "0 < fst (rand r)" "fst (rand r) < 1"
    by (simp_all add: rand_value)
  then have "ln (fst (rand r)) < 0"
    by (rule ln_less_zero)
  then have "fst (gaussianRandom r (Num 0) (Num 0.0005))
      = Num (sqrt (- 2 * ln (fst (rand r))) * cos (2 * pi * fst (rand (snd (rand r)))) * 0.0005 + 0)"
    using \<open>0 < fst (rand r)\<close> by (simp add: gaussianRandom_value)
  then show ?thesis ..
qed

text \<open>
  What the sampler returns from a state \<open>r \<ge> 0\<close>: never \<^verbatim>\<open>NaN\<close>; \<^verbatim>\<open>Infinity\<close> when the
  first draw is 0 (the state after it is 0), and a finite number otherwise.
\<close>

lemma gaussian_noise_values:
  "0 \<le> r \<Longrightarrow>
     fst (gaussianRandom r (Num 0) (Num 0.0005)) \<noteq> NaN
     \<and> (snd (rand r) = 0 \<longrightarrow> fst (rand r) = 0
           \<and> fst (gaussianRandom r (Num 0) (Num 0.0005)) = PInf)
     \<and> (snd (rand r) \<noteq> 0 \<longrightarrow> fst (rand r) \<noteq> 0
           \<and> (\<exists>x. fst (gaussianRandom r (Num 0) (Num 0.0005)) = Num x))"
proof -
  assume r: "0 \<le> r"
  show ?thesis
  proof (cases "snd (rand r) = 0")
    case True
    with r gaussian_at_zero [of r] show ?thesis
      by (simp add: rand_value)
  next
    case False
    with r gaussian_finite [of r] show ?thesis
      by (auto simp: rand_value)
  qed
qed

subsection \<open>The shape of the synthesized cube\<close>

lemma length_js_set: "length xs = j \<Longrightarrow> length (js_set xs j v) = Suc j"
  by (simp add: js_set_def)

lemma synth_cell_shape:
  assumes "i < length flux"
  shows "length (fst (synth_cell depth j (flux, r) i)) = length flux"
    and "fst (synth_cell depth j (flux, r) i) ! i
           = js_set (flux ! i) j (Num (transitModel (phase ! i) depth)
               + fst (gaussianRandom r (Num 0) (Num 0.0005)))"
    and "k \<noteq> i \<Longrightarrow> fst (synth_cell depth j (flux, r) i) ! k = flux ! k"
  using assms by (simp_all add: synth_cell_def Let_def case_prod_beta)

lemma inner_loop_shape:
  assumes "n \<le> length flux" and "\<forall>i < length flux. length (flux ! i) = j"
  shows "length (fst (foldl (synth_cell depth j) (flux, r) [0..<n])) = length flux
         \<and> (\<forall>i < length flux.
               length (fst (foldl (synth_cell depth j) (flux, r) [0..<n]) ! i)
                 = (if i < n then Suc j else j))"
  using assms(1)
proof (induction n)
  case 0
  show ?case using assms(2) by simp
next
  case (Suc n)
  obtain fl r' where st: "foldl (synth_cell depth j) (flux, r) [0..<n] = (fl, r')"
    by (cases "foldl (synth_cell depth j) (flux, r) [0..<n]")
  from Suc have ih: "length fl = length flux"
      "\<forall>i < length flux. length (fl ! i) = (if i < n then Suc j else j)"
    by (simp_all add: st)
  have n: "n < length fl" using Suc.prems ih(1) by simp
  have "length (fl ! n) = j" using ih(2) n ih(1) by simp
  then have new: "length (fst (synth_cell depth j (fl, r') n) ! n) = Suc j"
    by (simp add: synth_cell_shape(2) [OF n] length_js_set)
  have old: "\<And>k. k \<noteq> n \<Longrightarrow> fst (synth_cell depth j (fl, r') n) ! k = fl ! k"
    by (rule synth_cell_shape(3) [OF n])
  have len: "length (fst (synth_cell depth j (fl, r') n)) = length flux"
    by (simp add: synth_cell_shape(1) [OF n] ih(1))
  have "\<forall>i < length flux. length (fst (synth_cell depth j (fl, r') n) ! i)
          = (if i < Suc n then Suc j else j)"
  proof (intro allI impI)
    fix i
    assume i: "i < length flux"
    show "length (fst (synth_cell depth j (fl, r') n) ! i) = (if i < Suc n then Suc j else j)"
    proof (cases "i = n")
      case True
      then show ?thesis using new by simp
    next
      case False
      then show ?thesis using old [of i] ih(2) i by auto
    qed
  qed
  with len show ?case by (simp add: st)
qed

lemma synth_channel_shape:
  assumes "length flux = nTimes" and "\<forall>i < nTimes. length (flux ! i) = j"
  shows "length (fst (synth_channel (flux, r) j)) = nTimes
         \<and> (\<forall>i < nTimes. length (fst (synth_channel (flux, r) j) ! i) = Suc j)"
  using inner_loop_shape [of nTimes flux j "channel_depth (wavelengths ! j)" r] assms
  by (simp add: synth_channel_def Let_def)

lemma outer_loop_shape:
  "length (fst (foldl synth_channel (replicate nTimes [], r) [0..<m])) = nTimes
   \<and> (\<forall>i < nTimes. length (fst (foldl synth_channel (replicate nTimes [], r) [0..<m]) ! i) = m)"
proof (induction m)
  case 0
  show ?case by simp
next
  case (Suc m)
  obtain fl r' where st: "foldl synth_channel (replicate nTimes [], r) [0..<m] = (fl, r')"
    by (cases "foldl synth_channel (replicate nTimes [], r) [0..<m]")
  with Suc have "length fl = nTimes" "\<forall>i < nTimes. length (fl ! i) = m"
    by simp_all
  then show ?case
    using synth_channel_shape [of fl m r'] by (simp add: st)
qed

lemma synthesize_shape:
  "length (fst (synthesize r)) = nTimes"
  "\<forall>xs \<in> set (fst (synthesize r)). length xs = nWavelengths"
proof -
  show len: "length (fst (synthesize r)) = nTimes"
    using outer_loop_shape [of r nWavelengths] by (simp add: synthesize_def)
  have "\<forall>i < nTimes. length (fst (synthesize r) ! i) = nWavelengths"
    using outer_loop_shape [of r nWavelengths] by (simp add: synthesize_def)
  then show "\<forall>xs \<in> set (fst (synthesize r)). length xs = nWavelengths"
    using len by (metis in_set_conv_nth)
qed

lemma transmission_lengths:
  "length (fst (transmission ph flux)) = nWavelengths"
  "length (snd (transmission ph flux)) = nWavelengths"
  by (simp_all add: transmission_def Let_def)

subsection \<open>Arithmetic with NaN\<close>

lemma NaN_plus [simp]: "NaN + a = NaN" "a + NaN = NaN"
  by (cases a; simp)+

lemma NaN_uminus [simp]: "- NaN = NaN"
  by simp

lemma NaN_minus [simp]: "NaN - a = NaN" "a - NaN = NaN"
  by (simp_all add: minus_jsnum_def)

lemma NaN_times [simp]: "NaN * a = NaN" "a * NaN = NaN"
  by (cases a; simp)+

lemma NaN_divide [simp]: "NaN / a = NaN" "a / NaN = NaN"
  by (cases a; simp)+

subsection \<open>The transmission spectrum\<close>

lemma tally_fold:
  "foldl (tally_step inM outM flux j) a is =
     \<lparr>inSum = foldl (+) (inSum a) (map (\<lambda>i. cell flux i j) (filter (mask_at inM) is)),
      inCount = inCount a + length (filter (mask_at inM) is),
      inSqSum = foldl (+) (inSqSum a) (map (\<lambda>i. cell flux i j * cell flux i j) (filter (mask_at inM) is)),
      outSum = foldl (+) (outSum a) (map (\<lambda>i. cell flux i j) (filter (mask_at outM) is)),
      outCount = outCount a + length (filter (mask_at outM) is),
      outSqSum = foldl (+) (outSqSum a) (map (\<lambda>i. cell flux i j * cell flux i j) (filter (mask_at outM) is))\<rparr>"
proof (induction "is" arbitrary: a)
  case Nil
  show ?case by simp
next
  case (Cons i "is")
  show ?case
    unfolding foldl_Cons Cons.IH
    by (simp add: tally_step_def Let_def)
qed

lemma mask_at_in: "mask_at (inTransitMask ph) = (\<lambda>i. i < length ph \<and> in_transit (ph ! i))"
  by (rule ext) (auto simp: mask_at_def inTransitMask_def in_transit_def)

lemma mask_at_out: "mask_at (outTransitMask ph) = (\<lambda>i. i < length ph \<and> out_of_transit (ph ! i))"
  by (rule ext) (auto simp: mask_at_def outTransitMask_def out_of_transit_def)

lemma channel_spectrum_eq:
  "channel_spectrum ph flux j =
     (depth_ppm (samples in_transit ph flux j) (samples out_of_transit ph flux j),
      depth_err_ppm (samples in_transit ph flux j) (samples out_of_transit ph flux j))"
  unfolding channel_spectrum_def tally_fold
  by (simp add: Let_def tally0_def mask_at_in mask_at_out depth_ppm_def depth_err_ppm_def
      std_def mean_def total_def samples_def comp_def)

lemma phase_nth: "i < 100 \<Longrightarrow> phase ! i = - 0.05 + real i * 0.1 / 99"
  by (simp add: phase_def nTimes_def)

lemma in_transit_phase:
  assumes "i < 100"
  shows "in_transit (phase ! i) \<longleftrightarrow> 35 \<le> i \<and> i < 65"
proof -
  have "in_transit (phase ! i) \<longleftrightarrow> 3465 < real i * 100 \<and> real i * 100 < 6435"
    using assms by (simp add: phase_nth in_transit_def transitDuration_def abs_less_iff) argo
  also have "\<dots> \<longleftrightarrow> 3465 < i * 100 \<and> i * 100 < 6435"
    by (metis of_nat_less_iff of_nat_mult of_nat_numeral)
  also have "\<dots> \<longleftrightarrow> 35 \<le> i \<and> i < 65"
    by arith
  finally show ?thesis .
qed

lemma out_of_transit_phase:
  assumes "i < 100"
  shows "out_of_transit (phase ! i) \<longleftrightarrow> i < 25 \<or> 75 \<le> i"
proof -
  have "out_of_transit (phase ! i) \<longleftrightarrow> real i * 100 < 2475 \<or> 7425 < real i * 100"
    using assms by (simp add: phase_nth out_of_transit_def transitDuration_def abs_if)
  also have "\<dots> \<longleftrightarrow> i * 100 < 2475 \<or> 7425 < i * 100"
    by (metis of_nat_less_iff of_nat_mult of_nat_numeral)
  also have "\<dots> \<longleftrightarrow> i < 25 \<or> 75 \<le> i"
    by arith
  finally show ?thesis .
qed

lemma length_samples:
  "length (samples P ph flux j) = length (filter (\<lambda>i. i < length ph \<and> P (ph ! i)) [0..<nTimes])"
  by (simp add: samples_def)

lemma length_phase: "length phase = 100"
  by (simp add: phase_def nTimes_def)

lemma in_transit_count: "length (samples in_transit phase flux j) = 30"
proof -
  have "{i. i < length [0..<100] \<and> [0..<100] ! i < length phase \<and> in_transit (phase ! ([0..<100] ! i))}
          = {35..<65}"
    by (auto simp: in_transit_phase length_phase)
  then show ?thesis
    by (simp add: length_samples nTimes_def length_filter_conv_card)
qed

lemma out_of_transit_count: "length (samples out_of_transit phase flux j) = 50"
proof -
  have "{i. i < length [0..<100] \<and> [0..<100] ! i < length phase \<and> out_of_transit (phase ! ([0..<100] ! i))}
          = {0..<25} \<union> {75..<100}"
    by (auto simp: out_of_transit_phase length_phase)
  moreover have "card ({0..<25} \<union> {75..<100::nat}) = 50"
    by (subst card_Un_disjoint) simp_all
  ultimately show ?thesis
    by (simp add: length_samples nTimes_def length_filter_conv_card)
qed

lemma gap:
  "\<not> (in_transit p \<and> out_of_transit p)" "\<not> in_transit 0.02" "\<not> out_of_transit 0.02"
  by (simp_all add: in_transit_def out_of_transit_def transitDuration_def)

lemma transmission_eq:
  "transmission ph flux =
     (map (\<lambda>j. depth_ppm (samples in_transit ph flux j) (samples out_of_transit ph flux j))
        [0..<nWavelengths],
      map (\<lambda>j. depth_err_ppm (samples in_transit ph flux j) (samples out_of_transit ph flux j))
        [0..<nWavelengths])"
  by (simp add: transmission_def Let_def channel_spectrum_eq comp_def)

text \<open>
  Claim C4. For a cube with a row for every time index and for every channel \<open>j\<close>: the
  in-transit samples are those with \<open>|phase| < 0.015\<close>, the out-of-transit samples those
  with \<open>|phase| > 0.025\<close>, and no sample is in both; a phase in the gap, such as 0.02,
  is in neither. The depth is \<open>(1 - inMean / outMean) * 1e6\<close> and its uncertainty is
  \<open>sqrt (inStd\<^sup>2 + outStd\<^sup>2) / outMean * 1e6\<close>, with the mean and the population
  standard deviation of each set. The spectrum holds these for the channels in order.
\<close>

theorem transmission_spectrum:
  "nTimes \<le> length flux \<Longrightarrow>
     channel_spectrum ph flux j =
       (depth_ppm (samples in_transit ph flux j) (samples out_of_transit ph flux j),
        depth_err_ppm (samples in_transit ph flux j) (samples out_of_transit ph flux j))
     \<and> transmission ph flux =
       (map (\<lambda>j. depth_ppm (samples in_transit ph flux j) (samples out_of_transit ph flux j))
          [0..<nWavelengths],
        map (\<lambda>j. depth_err_ppm (samples in_transit ph flux j) (samples out_of_transit ph flux j))
          [0..<nWavelengths])
     \<and> in_transit p = (\<bar>p\<bar> < 0.015) \<and> out_of_transit p = (\<bar>p\<bar> > 0.025)
     \<and> \<not> (in_transit p \<and> out_of_transit p)
     \<and> \<not> in_transit 0.02 \<and> \<not> out_of_transit 0.02"
  using channel_spectrum_eq [of ph flux j] transmission_eq [of ph flux] gap
  by (simp add: in_transit_def out_of_transit_def transitDuration_def)

lemma total_replicate_one:
  "foldl (+) (Num a) (replicate n (Num 1)) = Num (a + real n)"
  by (induction n arbitrary: a) (simp_all add: algebra_simps)

lemma samples_unit_cube:
  "samples P ph (replicate 100 (replicate 200 (Num 1))) 0
     = replicate (length (samples P ph (replicate 100 (replicate 200 (Num 1))) 0)) (Num 1)"
proof -
  have "map (\<lambda>i. cell (replicate 100 (replicate 200 (Num 1))) i 0)
            (filter (\<lambda>i. i < length ph \<and> P (ph ! i)) [0..<nTimes])
          = map (\<lambda>i. Num 1) (filter (\<lambda>i. i < length ph \<and> P (ph ! i)) [0..<nTimes])"
    by (rule map_cong) (auto simp: cell_def row_def at_nat_def nTimes_def)
  then show ?thesis
    by (simp add: samples_def map_replicate_const)
qed

theorem transmission_spectrum_witness:
  "nTimes \<le> length (replicate 100 (replicate 200 (Num 1)))
   \<and> channel_spectrum phase (replicate 100 (replicate 200 (Num 1))) 0 = (Num 0, Num 0)
   \<and> nTimes \<le> length (fst (synthesize (seededRandom (hashString (ascii ''WASP-39 b'')))))
   \<and> length (fst (transmission phase
         (fst (synthesize (seededRandom (hashString (ascii ''WASP-39 b''))))))) = 200"
proof -
  have rows: "nTimes \<le> length (replicate 100 (replicate 200 (Num 1)))"
    by (simp add: nTimes_def)
  have ins: "samples in_transit phase (replicate 100 (replicate 200 (Num 1))) 0 = replicate 30 (Num 1)"
    using samples_unit_cube [of in_transit phase] by (simp add: in_transit_count)
  have outs: "samples out_of_transit phase (replicate 100 (replicate 200 (Num 1))) 0 = replicate 50 (Num 1)"
    using samples_unit_cube [of out_of_transit phase] by (simp add: out_of_transit_count)
  have "channel_spectrum phase (replicate 100 (replicate 200 (Num 1))) 0
          = (depth_ppm (replicate 30 (Num 1)) (replicate 50 (Num 1)),
             depth_err_ppm (replicate 30 (Num 1)) (replicate 50 (Num 1)))"
    using transmission_spectrum [OF rows, of phase 0] by (simp only: ins outs)
  also have "\<dots> = (Num 0, Num 0)"
    by (simp add: depth_ppm_def depth_err_ppm_def std_def mean_def total_def
        total_replicate_one minus_jsnum_def)
  finally have unit: "channel_spectrum phase (replicate 100 (replicate 200 (Num 1))) 0 = (Num 0, Num 0)" .
  have cube: "nTimes \<le> length (fst (synthesize (seededRandom (hashString (ascii ''WASP-39 b'')))))"
    by (simp add: synthesize_shape(1))
  have "length (fst (transmission phase
         (fst (synthesize (seededRandom (hashString (ascii ''WASP-39 b''))))))) = 200"
    using transmission_spectrum [OF cube, of phase] by (simp add: nWavelengths_def)
  with rows unit cube show ?thesis
    by blast
qed



subsection \<open>Binning\<close>

lemma for_upto_nat: "for_upto (Num (real n)) = Some [0..<n]"
  by simp

lemma floor_bins:
  assumes "0 < B"
  shows "Math_floor (Num (real n) / Num (real B)) = Num (real (n div B))"
proof -
  have "\<lfloor>real n / real B\<rfloor> = int (n div B)"
    by (rule floor_divide_of_nat_eq)
  then show ?thesis
    using assms by simp
qed

lemma at_num_nat: "at_num xs (Num (real b) * Num (real B) + Num (real k)) = at_nat xs (b * B + k)"
proof -
  have "Num (real b) * Num (real B) + Num (real k) = Num (real (b * B + k))"
    by simp
  then show ?thesis
    by (simp del: of_nat_add of_nat_mult)
qed

lemma reads_chunk:
  assumes "b * B + B \<le> length xs"
  shows "map (\<lambda>k. at_nat xs (b * B + k)) [0..<B] = chunk xs B b"
proof (rule nth_equalityI)
  show "length (map (\<lambda>k. at_nat xs (b * B + k)) [0..<B]) = length (chunk xs B b)"
    using assms by (simp add: chunk_def)
next
  fix i
  assume "i < length (map (\<lambda>k. at_nat xs (b * B + k)) [0..<B])"
  then have i: "i < B" by simp
  then show "map (\<lambda>k. at_nat xs (b * B + k)) [0..<B] ! i = chunk xs B b ! i"
    using assms by (simp add: chunk_def at_nat_def)
qed

lemma bin_sum_chunk:
  assumes "b * B + B \<le> length xs"
  shows "bin_sum xs (Num (real B)) b [0..<B] = total (chunk xs B b)"
proof -
  have "bin_sum xs (Num (real B)) b [0..<B]
          = foldl (+) (Num 0) (map (\<lambda>k. at_nat xs (b * B + k)) [0..<B])"
    unfolding bin_sum_def at_num_nat by (simp add: foldl_map)
  then show ?thesis
    by (simp add: reads_chunk [OF assms] total_def)
qed

lemma length_chunk: "b * B + B \<le> length xs \<Longrightarrow> length (chunk xs B b) = B"
  by (simp add: chunk_def)

lemma bin_mean:
  assumes "b * B + B \<le> length xs"
  shows "bin_sum xs (Num (real B)) b [0..<B] / Num (real B) = mean (chunk xs B b)"
  by (simp only: bin_sum_chunk [OF assms] mean_def length_chunk [OF assms])

lemma bin_in_range:
  fixes b n B :: nat
  assumes "b < n div B"
  shows "b * B + B \<le> n div B * B" and "n div B * B \<le> n"
proof -
  have "Suc b \<le> n div B" using assms by simp
  then have "Suc b * B \<le> n div B * B" by (rule mult_le_mono1)
  then show "b * B + B \<le> n div B * B" by (simp add: algebra_simps)
  show "n div B * B \<le> n" by simp
qed

lemma chunk_take:
  assumes "b * B + B \<le> m"
  shows "chunk (take m xs) B b = chunk xs B b"
proof -
  have "B \<le> m - b * B" using assms by simp
  then show ?thesis
    by (simp add: chunk_def drop_take min_def)
qed

lemma binned_value:
  assumes "length xs = 200" and "b \<in> set [0..<200 div B]"
  shows "bin_sum xs (Num (real B)) b [0..<B] / Num (real B)
           = mean (chunk (take (200 div B * B) xs) B b)"
proof -
  have b: "b < 200 div B" using assms(2) by simp
  have r: "b * B + B \<le> 200 div B * B"
    by (rule bin_in_range(1) [OF b])
  also have "200 div B * B \<le> 200"
    by (rule bin_in_range(2) [OF b])
  finally have "b * B + B \<le> length xs" using assms(1) by simp
  then have "bin_sum xs (Num (real B)) b [0..<B] / Num (real B) = mean (chunk xs B b)"
    by (rule bin_mean)
  then show ?thesis
    by (simp add: chunk_take [OF r])
qed

text \<open>
  Claim C5. For a bin size \<open>B\<close> from 5 to 100, 200 wavelength channels and a cube of 100
  rows of 200 values, the binner returns \<open>200 div B\<close> bins. Only the first
  \<open>(200 div B) * B\<close> channels are read. The wavelength and the depth of bin \<open>b\<close> are the
  means of its \<open>B\<close> values, the depth error is that mean divided by \<open>sqrt B\<close>, and in
  every row of the cube the value of bin \<open>b\<close> is the mean of the row's \<open>B\<close> values.
\<close>

theorem spectral_binner:
  assumes "5 \<le> B" and "B \<le> 100"
    and "length wls = 200" and "length td = 200" and "length tde = 200"
    and "length flux = nTimes" and "\<forall>r \<in> set flux. length r = 200"
  shows "binner (Num (real B)) (Math_floor (Num (real nWavelengths) / Num (real B))) wls td tde flux
     = Some \<lparr>wavelengthsBinned =
                map (\<lambda>b. mean (chunk (take (200 div B * B) wls) B b)) [0..<200 div B],
              transitDepthBinned =
                map (\<lambda>b. mean (chunk (take (200 div B * B) td) B b)) [0..<200 div B],
              transitDepthErrBinned =
                map (\<lambda>b. mean (chunk (take (200 div B * B) tde) B b) / Math_sqrt (Num (real B)))
                  [0..<200 div B],
              fluxBinned =
                map (\<lambda>i. map (\<lambda>b. mean (chunk (take (200 div B * B) (flux ! i)) B b))
                             [0..<200 div B])
                  [0..<nTimes]\<rparr>"
proof -
  have pos: "0 < B" using assms(1) by simp
  have nBins: "Math_floor (Num (real nWavelengths) / Num (real B)) = Num (real (200 div B))"
    using floor_bins [OF pos, of nWavelengths] by (simp add: nWavelengths_def)
  have "200 div 100 \<le> 200 div B"
    using pos assms(2) by (rule div_le_mono2)
  then have some: "[0..<200 div B] \<noteq> []" by simp
  have w: "map (\<lambda>b. bin_sum wls (Num (real B)) b [0..<B] / Num (real B)) [0..<200 div B]
             = map (\<lambda>b. mean (chunk (take (200 div B * B) wls) B b)) [0..<200 div B]"
    by (rule map_cong [OF refl]) (rule binned_value [OF assms(3)])
  have d: "map (\<lambda>b. bin_sum td (Num (real B)) b [0..<B] / Num (real B)) [0..<200 div B]
             = map (\<lambda>b. mean (chunk (take (200 div B * B) td) B b)) [0..<200 div B]"
    by (rule map_cong [OF refl]) (rule binned_value [OF assms(4)])
  have e: "map (\<lambda>b. bin_sum tde (Num (real B)) b [0..<B] / Num (real B) / Math_sqrt (Num (real B)))
               [0..<200 div B]
             = map (\<lambda>b. mean (chunk (take (200 div B * B) tde) B b) / Math_sqrt (Num (real B)))
                 [0..<200 div B]"
    by (rule map_cong [OF refl]) (simp only: binned_value [OF assms(5)])
  have f: "map (\<lambda>i. map (\<lambda>b. bin_sum (row flux i) (Num (real B)) b [0..<B] / Num (real B))
                          [0..<200 div B]) [0..<nTimes]
             = map (\<lambda>i. map (\<lambda>b. mean (chunk (take (200 div B * B) (flux ! i)) B b))
                          [0..<200 div B]) [0..<nTimes]"
  proof (rule map_cong [OF refl])
    fix i
    assume "i \<in> set [0..<nTimes]"
    then have i: "i < length flux" using assms(6) by simp
    then have "length (flux ! i) = 200" using assms(7) by simp
    then have "map (\<lambda>b. bin_sum (flux ! i) (Num (real B)) b [0..<B] / Num (real B)) [0..<200 div B]
             = map (\<lambda>b. mean (chunk (take (200 div B * B) (flux ! i)) B b)) [0..<200 div B]"
      by (intro map_cong [OF refl] binned_value)
    then show "map (\<lambda>b. bin_sum (row flux i) (Num (real B)) b [0..<B] / Num (real B)) [0..<200 div B]
             = map (\<lambda>b. mean (chunk (take (200 div B * B) (flux ! i)) B b)) [0..<200 div B]"
      using i by (simp add: row_def)
  qed
  show ?thesis
    unfolding binner_def nBins for_upto_nat
    by (simp only: option.case if_not_P [OF some] w d e f)
qed

theorem spectral_binner_witness:
  "(5::nat) \<le> 7 \<and> (7::nat) \<le> 100
   \<and> length (replicate 200 (Num 1)) = 200
   \<and> length (replicate 100 (replicate 200 (Num 1))) = nTimes
   \<and> map_option (\<lambda>bd. (length (wavelengthsBinned bd), length (transitDepthBinned bd),
                         length (transitDepthErrBinned bd), length (fluxBinned bd)))
        (binner (Num 7) (Math_floor (Num (real nWavelengths) / Num 7))
           (replicate 200 (Num 1)) (replicate 200 (Num 1)) (replicate 200 (Num 1))
           (replicate 100 (replicate 200 (Num 1))))
       = Some (28, 28, 28, 100)
   \<and> length (map Num wavelengths) = 200
   \<and> length (fst (synthesize (seededRandom (hashString (ascii ''WASP-39 b''))))) = nTimes
   \<and> map_option (\<lambda>bd. (length (wavelengthsBinned bd), length (fluxBinned bd)))
        (binner (Num 20) (Math_floor (Num (real nWavelengths) / Num 20))
           (map Num wavelengths)
           (fst (transmission phase (fst (synthesize (seededRandom (hashString (ascii ''WASP-39 b'')))))))
           (snd (transmission phase (fst (synthesize (seededRandom (hashString (ascii ''WASP-39 b'')))))))
           (fst (synthesize (seededRandom (hashString (ascii ''WASP-39 b''))))))
       = Some (10, 100)"
proof -
  have rows: "length (replicate 100 (replicate 200 (Num 1))) = nTimes"
    by (simp add: nTimes_def)
  have cols: "\<forall>r \<in> set (replicate 100 (replicate 200 (Num 1))). length r = 200"
    by simp
  have unit: "map_option (\<lambda>bd. (length (wavelengthsBinned bd), length (transitDepthBinned bd),
                         length (transitDepthErrBinned bd), length (fluxBinned bd)))
        (binner (Num 7) (Math_floor (Num (real nWavelengths) / Num 7))
           (replicate 200 (Num 1)) (replicate 200 (Num 1)) (replicate 200 (Num 1))
           (replicate 100 (replicate 200 (Num 1))))
       = Some (28, 28, 28, 100)"
    using spectral_binner [of 7 "replicate 200 (Num 1)" "replicate 200 (Num 1)" "replicate 200 (Num 1)"
        "replicate 100 (replicate 200 (Num 1))", OF _ _ _ _ _ rows cols]
    by (simp add: nTimes_def)
  have w: "length (map Num wavelengths) = 200"
    by (simp add: wavelengths_def nWavelengths_def)
  have t: "length (fst (transmission phase (fst (synthesize (seededRandom (hashString (ascii ''WASP-39 b'')))))))
             = 200"
      "length (snd (transmission phase (fst (synthesize (seededRandom (hashString (ascii ''WASP-39 b'')))))))
             = 200"
    by (simp_all add: transmission_lengths nWavelengths_def)
  have c: "length (fst (synthesize (seededRandom (hashString (ascii ''WASP-39 b''))))) = nTimes"
    by (rule synthesize_shape(1))
  have c': "\<forall>r \<in> set (fst (synthesize (seededRandom (hashString (ascii ''WASP-39 b''))))). length r = 200"
    using synthesize_shape(2) [of "seededRandom (hashString (ascii ''WASP-39 b''))"]
    by (simp add: nWavelengths_def)
  have handler: "map_option (\<lambda>bd. (length (wavelengthsBinned bd), length (fluxBinned bd)))
        (binner (Num 20) (Math_floor (Num (real nWavelengths) / Num 20))
           (map Num wavelengths)
           (fst (transmission phase (fst (synthesize (seededRandom (hashString (ascii ''WASP-39 b'')))))))
           (snd (transmission phase (fst (synthesize (seededRandom (hashString (ascii ''WASP-39 b'')))))))
           (fst (synthesize (seededRandom (hashString (ascii ''WASP-39 b''))))))
       = Some (10, 100)"
    using spectral_binner [of 20, OF _ _ w t c c'] by (simp add: nTimes_def)
  show ?thesis
    using rows unit w c handler by simp
qed

subsection \<open>The handler\<close>

lemma GET_unfold:
  "GET target sp =
     (let flux = fst (synthesize (seededRandom (hashString target)));
          nBins = Math_floor (Num (real nWavelengths) / binSize_of sp)
      in case binner (binSize_of sp) nBins (map Num wavelengths)
                (fst (transmission phase flux)) (snd (transmission phase flux)) flux of
           None \<Rightarrow> None
         | Some bd \<Rightarrow>
             (case lightcurveFlux nBins (fluxBinned bd) of
                None \<Rightarrow> None
              | Some lc \<Rightarrow>
                  Some \<lparr>r_target = target,
                        r_data_source = ''simulated'',
                        r_wavelengths = wavelengthsBinned bd,
                        r_phase = phase,
                        r_flux = fluxBinned bd,
                        r_ts_wavelengths = wavelengthsBinned bd,
                        r_transit_depth_ppm = transitDepthBinned bd,
                        r_transit_depth_err_ppm = transitDepthErrBinned bd,
                        r_lc_phase = phase,
                        r_lc_flux = lc,
                        r_instrument = ''NIRSpec (simulated)'',
                        r_mode = ''G395H'',
                        r_wavelength_range = (wavelengths ! 0, wavelengths ! (length wavelengths - 1)),
                        r_n_integrations = nTimes\<rparr>))"
  by (simp add: GET_def Let_def case_prod_beta)

lemma clamp_cases:
  "Math_min (Num 100) (Math_max (Num 5) a) = NaN \<and> a = NaN
   \<or> (\<exists>x. Math_min (Num 100) (Math_max (Num 5) a) = Num x \<and> 5 \<le> x \<and> x \<le> 100)"
  by (cases a) (auto simp: Math_min_def Math_max_def)

lemma binner_total:
  assumes "5 \<le> x" and "x \<le> 100"
  shows "\<exists>bd. binner (Num x) (Math_floor (Num n / Num x)) wls td tde flux = Some bd"
  using assms by (simp add: binner_def)

lemma lightcurve_total:
  assumes "5 \<le> x"
  shows "\<exists>lc. lightcurveFlux (Math_floor (Num n / Num x)) fb = Some lc"
  using assms by (simp add: lightcurveFlux_def)

lemma binner_NaN:
  "binner NaN NaN wls td tde flux
     = Some \<lparr>wavelengthsBinned = [], transitDepthBinned = [],
             transitDepthErrBinned = [], fluxBinned = replicate nTimes []\<rparr>"
  by (simp add: binner_def)

lemma lightcurve_NaN: "lightcurveFlux NaN fb = Some (replicate nTimes NaN)"
  by (simp add: lightcurveFlux_def map_replicate_const)

lemma GET_total: "\<exists>r. GET target sp = Some r"
proof -
  consider "binSize_of sp = NaN"
    | x where "binSize_of sp = Num x" "5 \<le> x" "x \<le> 100"
    using clamp_cases [of "parseInt (bin_size_arg sp)"] by (auto simp: binSize_of_def)
  then show ?thesis
  proof cases
    case 1
    then show ?thesis
      by (simp add: GET_unfold Let_def binner_NaN lightcurve_NaN)
  next
    case 2
    obtain bd where bd: "binner (Num x) (Math_floor (Num (real nWavelengths) / Num x))
        (map Num wavelengths)
        (fst (transmission phase (fst (synthesize (seededRandom (hashString target))))))
        (snd (transmission phase (fst (synthesize (seededRandom (hashString target))))))
        (fst (synthesize (seededRandom (hashString target)))) = Some bd"
      using binner_total [OF 2(2,3)] by blast
    obtain lc where lc: "lightcurveFlux (Math_floor (Num (real nWavelengths) / Num x)) (fluxBinned bd) = Some lc"
      using lightcurve_total [OF 2(2)] by blast
    show ?thesis
      unfolding GET_unfold Let_def 2(1) bd option.case lc by blast
  qed
qed

lemma binSize_NaN:
  "parseInt (bin_size_arg sp) = NaN \<Longrightarrow> binSize_of sp = NaN"
  by (simp add: binSize_of_def Math_min_def Math_max_def)

lemma GET_NaN:
  assumes "binSize_of sp = NaN"
  shows "GET target sp =
     Some \<lparr>r_target = target,
           r_data_source = ''simulated'',
           r_wavelengths = [],
           r_phase = phase,
           r_flux = replicate nTimes [],
           r_ts_wavelengths = [],
           r_transit_depth_ppm = [],
           r_transit_depth_err_ppm = [],
           r_lc_phase = phase,
           r_lc_flux = replicate nTimes NaN,
           r_instrument = ''NIRSpec (simulated)'',
           r_mode = ''G395H'',
           r_wavelength_range = (wavelengths ! 0, wavelengths ! (length wavelengths - 1)),
           r_n_integrations = nTimes\<rparr>"
  by (simp add: GET_unfold Let_def assms binner_NaN lightcurve_NaN)

text \<open>
  Claim C10. When \<^verbatim>\<open>parseInt\<close> yields \<^verbatim>\<open>NaN\<close> for the bin size string, the clamp yields
  \<^verbatim>\<open>NaN\<close>, not a value in \<open>[5, 100]\<close>. The bound of the loop over the bins is then
  \<^verbatim>\<open>NaN\<close> and the loop visits no bin: the binned wavelengths, the binned spectrum and
  every row of the binned cube are empty, and each of the 100 entries of the
  light-curve flux is \<^verbatim>\<open>NaN\<close>.
\<close>

theorem unparsable_bin_size:
  "parseInt (bin_size_arg sp) = NaN \<Longrightarrow>
     binSize_of sp = NaN
     \<and> \<not> (\<exists>x. binSize_of sp = Num x \<and> 5 \<le> x \<and> x \<le> 100)
     \<and> for_upto (Math_floor (Num (real nWavelengths) / binSize_of sp)) = Some []
     \<and> (\<exists>r. GET target sp = Some r
            \<and> r_wavelengths r = [] \<and> r_ts_wavelengths r = []
            \<and> r_transit_depth_ppm r = [] \<and> r_transit_depth_err_ppm r = []
            \<and> r_flux r = replicate nTimes []
            \<and> r_lc_flux r = replicate nTimes NaN)"
proof -
  assume "parseInt (bin_size_arg sp) = NaN"
  then have b: "binSize_of sp = NaN"
    by (rule binSize_NaN)
  show ?thesis
    by (simp add: b GET_NaN [OF b])
qed

theorem unparsable_bin_size_witness:
  "parseInt (bin_size_arg [(ascii ''bin_size'', ascii ''abc'')]) = NaN
   \<and> binSize_of [(ascii ''bin_size'', ascii ''abc'')] = NaN
   \<and> map_option (\<lambda>r. (r_wavelengths r, r_transit_depth_ppm r, r_flux r, r_lc_flux r))
        (GET (ascii ''WASP-39 b'') [(ascii ''bin_size'', ascii ''abc'')])
       = Some ([], [], replicate 100 [], replicate 100 NaN)"
proof -
  have p: "parseInt (bin_size_arg [(ascii ''bin_size'', ascii ''abc'')]) = NaN"
    by (simp add: bin_size_arg_def sp_get_def parseInt_def ascii_def read_sign_def
        read_radix_def is_white_def is_digit_def digit_of_def)
  show ?thesis
    using p unparsable_bin_size [OF p, of "ascii ''WASP-39 b''"]
    by (auto simp: nTimes_def)
qed

subsection \<open>The grids\<close>

lemma strict_grid:
  fixes a s :: real
  assumes "0 < s" and "0 < d'"
  shows "sorted_wrt (<) (map (\<lambda>i. a + (real i * s) / d') [0..<n])"
proof -
  have "sorted_wrt (\<lambda>i j. a + (real i * s) / d' < a + (real j * s) / d') [0..<n]"
  proof (rule sorted_wrt_mono_rel [of _ "(<)"])
    fix i j :: nat
    assume "i < j"
    then have "real i * s < real j * s" using assms by simp
    then show "a + (real i * s) / d' < a + (real j * s) / d'"
      using assms by (simp add: divide_strict_right_mono)
  qed simp
  then show ?thesis by (simp add: sorted_wrt_map)
qed

lemma GET_grids:
  assumes "GET target sp = Some r"
  shows "r_phase r = phase" and "r_lc_phase r = phase"
    and "r_wavelength_range r = (wavelengths ! 0, wavelengths ! (length wavelengths - 1))"
    and "r_n_integrations r = nTimes"
  using assms by (auto simp: GET_unfold Let_def split: option.splits)

lemma wavelength_ends: "wavelengths ! 0 = 0.6" "wavelengths ! (length wavelengths - 1) = 5.3"
  by (simp_all add: wavelengths_def nWavelengths_def)

text \<open>
  Claim C8. The wavelength grid has 200 points, strictly ascending, from 0.6 to 5.3, and
  the phase grid has 100 points, strictly ascending, from -0.05 to 0.05; both are evenly
  spaced (point \<open>i\<close> is the first point plus \<open>i\<close> steps). No input reaches the grids:
  for every target and every query the response carries this phase grid, the wavelength
  range \<open>(0.6, 5.3)\<close> and the sample count 100.
\<close>

theorem grid_builder:
  "length wavelengths = 200 \<and> sorted_wrt (<) wavelengths
   \<and> hd wavelengths = 0.6 \<and> last wavelengths = 5.3
   \<and> wavelengths = map (\<lambda>i. 0.6 + real i * (4.7 / 199)) [0..<200]
   \<and> length phase = 100 \<and> sorted_wrt (<) phase
   \<and> hd phase = - 0.05 \<and> last phase = 0.05
   \<and> phase = map (\<lambda>i. - 0.05 + real i * (0.1 / 99)) [0..<100]
   \<and> map_option (\<lambda>r. (r_phase r, r_lc_phase r, r_wavelength_range r, r_n_integrations r))
        (GET target sp) = Some (phase, phase, (0.6, 5.3), 100)"
proof -
  have w1: "sorted_wrt (<) wavelengths"
    unfolding wavelengths_def by (rule strict_grid) (simp_all add: nWavelengths_def)
  have p1: "sorted_wrt (<) phase"
    unfolding phase_def by (rule strict_grid) (simp_all add: nTimes_def)
  have w2: "hd wavelengths = 0.6"
    by (simp add: wavelengths_def nWavelengths_def hd_map upt_rec [of 0 200])
  have p2: "hd phase = - 0.05"
    by (simp add: phase_def nTimes_def hd_map upt_rec [of 0 100])
  have w3: "last wavelengths = 5.3"
    by (simp add: wavelengths_def nWavelengths_def last_map)
  have p3: "last phase = 0.05"
    by (simp add: phase_def nTimes_def last_map)
  have w4: "wavelengths = map (\<lambda>i. 0.6 + real i * (4.7 / 199)) [0..<200]"
    by (simp add: wavelengths_def nWavelengths_def)
  have p4: "phase = map (\<lambda>i. - 0.05 + real i * (0.1 / 99)) [0..<100]"
    by (simp add: phase_def nTimes_def)
  have l: "length wavelengths = 200" "length phase = 100"
    by (simp_all add: wavelengths_def phase_def nWavelengths_def nTimes_def)
  obtain r where r: "GET target sp = Some r"
    using GET_total by blast
  have "r_wavelength_range r = (wavelengths ! 0, wavelengths ! (length wavelengths - 1))"
    by (rule GET_grids(3) [OF r])
  then have e: "r_wavelength_range r = (0.6, 5.3)"
    by (simp only: wavelength_ends)
  have g: "map_option (\<lambda>r. (r_phase r, r_lc_phase r, r_wavelength_range r, r_n_integrations r))
        (GET target sp) = Some (phase, phase, (0.6, 5.3), 100)"
    by (simp add: r GET_grids(1,2,4) [OF r] e nTimes_def)
  show ?thesis
    using w1 w2 w3 w4 p1 p2 p3 p4 l g by blast
qed

subsection \<open>A zero draw\<close>

lemma js_set_keeps_first:
  assumes "xs \<noteq> []" and "j \<noteq> 0"
  shows "js_set xs j w \<noteq> []" and "js_set xs j w ! 0 = xs ! 0"
  using assms by (simp_all add: js_set_def nth_append)

lemma synth_cell_keeps_first:
  assumes "first_is v flux" and "j \<noteq> 0 \<or> i \<noteq> 0"
  shows "first_is v (fst (synth_cell depth j (flux, r) i))"
proof (cases "i = 0")
  case True
  with assms(2) have j: "j \<noteq> 0" by simp
  from assms(1) have f: "flux \<noteq> []" "flux ! 0 \<noteq> []" "flux ! 0 ! 0 = v"
    by (simp_all add: first_is_def)
  show ?thesis
    using True f js_set_keeps_first [OF f(2) j]
    by (simp add: first_is_def synth_cell_def Let_def case_prod_beta)
next
  case False
  from assms(1) have f: "flux \<noteq> []" "flux ! 0 \<noteq> []" "flux ! 0 ! 0 = v"
    by (simp_all add: first_is_def)
  show ?thesis
    using False f
    by (simp add: first_is_def synth_cell_def Let_def case_prod_beta)
qed

lemma inner_keeps_first:
  assumes "j \<noteq> 0 \<or> 0 \<notin> set is"
  shows "first_is v (fst st) \<Longrightarrow> first_is v (fst (foldl (synth_cell depth j) st is))"
  using assms
proof (induction "is" arbitrary: st)
  case Nil
  then show ?case by simp
next
  case (Cons i "is")
  obtain flux r where st: "st = (flux, r)" by (cases st)
  have "first_is v (fst (synth_cell depth j (flux, r) i))"
    using Cons.prems st by (intro synth_cell_keeps_first) auto
  then have "first_is v (fst (foldl (synth_cell depth j) (synth_cell depth j (flux, r) i) is))"
    using Cons.prems(2) by (intro Cons.IH) auto
  then show ?case by (simp add: st)
qed

lemma outer_keeps_first:
  assumes "0 \<notin> set js"
  shows "first_is v (fst st) \<Longrightarrow> first_is v (fst (foldl synth_channel st js))"
  using assms
proof (induction js arbitrary: st)
  case Nil
  then show ?case by simp
next
  case (Cons j js)
  have j: "j \<noteq> 0" using Cons.prems(2) by simp
  have "first_is v (fst (synth_channel st j))"
    unfolding synth_channel_def Let_def
    using Cons.prems(1) j by (intro inner_keeps_first) simp_all
  then have "first_is v (fst (foldl synth_channel (synth_channel st j) js))"
    using Cons.prems(2) by (intro Cons.IH) auto
  then show ?case by simp
qed

lemma first_cell_written:
  "first_is (Num (transitModel (phase ! 0) depth) + fst (gaussianRandom r (Num 0) (Num 0.0005)))
     (fst (synth_cell depth 0 (replicate nTimes [], r) 0))"
  by (simp add: first_is_def synth_cell_def Let_def case_prod_beta js_set_def nTimes_def)

lemma first_cell:
  "cell (fst (synthesize r)) 0 0
     = Num (transitModel (phase ! 0) (channel_depth (wavelengths ! 0)))
         + fst (gaussianRandom r (Num 0) (Num 0.0005))"
proof -
  let ?d = "channel_depth (wavelengths ! 0)"
  let ?v = "Num (transitModel (phase ! 0) ?d) + fst (gaussianRandom r (Num 0) (Num 0.0005))"
  have times: "[0..<nTimes] = 0 # [Suc 0..<nTimes]"
    by (simp add: nTimes_def upt_rec [of 0 100])
  have chans: "[0..<nWavelengths] = 0 # [Suc 0..<nWavelengths]"
    by (simp add: nWavelengths_def upt_rec [of 0 200])
  have "first_is ?v (fst (foldl (synth_cell ?d 0) (synth_cell ?d 0 (replicate nTimes [], r) 0)
                            [Suc 0..<nTimes]))"
    by (rule inner_keeps_first [OF _ first_cell_written]) simp
  then have "first_is ?v (fst (synth_channel (replicate nTimes [], r) 0))"
    by (simp add: synth_channel_def Let_def times)
  then have "first_is ?v (fst (foldl synth_channel (synth_channel (replicate nTimes [], r) 0)
                                 [Suc 0..<nWavelengths]))"
    by (rule outer_keeps_first [rotated]) simp
  then have "first_is ?v (fst (synthesize r))"
    by (simp add: synthesize_def chans)
  then show ?thesis
    by (auto simp: first_is_def cell_def row_def at_nat_def)
qed

subsection \<open>An infinite sample\<close>

lemma sum_from_infinity:
  "a = PInf \<or> a = NaN \<Longrightarrow> foldl (+) a xs = PInf \<or> foldl (+) a xs = NaN"
proof (induction xs arbitrary: a)
  case Nil
  then show ?case by simp
next
  case (Cons x xs)
  have "a + x = PInf \<or> a + x = NaN"
    using Cons.prems by (cases x) auto
  then show ?case
    using Cons.IH [of "a + x"] by simp
qed

lemma mean_with_infinity:
  "mean (PInf # xs) = PInf \<or> mean (PInf # xs) = NaN"
proof -
  have "foldl (+) PInf xs = PInf \<or> foldl (+) PInf xs = NaN"
    by (rule sum_from_infinity) simp
  moreover have "PInf / Num (real (Suc (length xs))) = PInf"
    by (simp add: inf_of_sign_def)
  ultimately show ?thesis
    by (auto simp: mean_def total_def simp del: of_nat_Suc)
qed

lemma std_with_infinity: "std (PInf # xs) = NaN"
proof -
  have sq: "map (\<lambda>x. x * x) (PInf # xs) = PInf # map (\<lambda>x. x * x) xs"
    by (simp add: inf_of_sign_def)
  have a: "mean (map (\<lambda>x. x * x) (PInf # xs)) = PInf \<or> mean (map (\<lambda>x. x * x) (PInf # xs)) = NaN"
    unfolding sq by (rule mean_with_infinity)
  have b: "mean (PInf # xs) = PInf \<or> mean (PInf # xs) = NaN"
    by (rule mean_with_infinity)
  have "mean (map (\<lambda>x. x * x) (PInf # xs)) - mean (PInf # xs) * mean (PInf # xs) = NaN"
    using a b by (auto simp: minus_jsnum_def inf_of_sign_def)
  then show ?thesis
    by (simp add: std_def)
qed

lemma depth_err_with_infinity: "depth_err_ppm ins (PInf # xs) = NaN"
  by (simp add: depth_err_ppm_def std_with_infinity)

lemma first_out_sample:
  "samples out_of_transit phase flux j
     = cell flux 0 j # map (\<lambda>i. cell flux i j)
         (filter (\<lambda>i. i < length phase \<and> out_of_transit (phase ! i)) [Suc 0..<nTimes])"
proof -
  have times: "[0..<nTimes] = 0 # [Suc 0..<nTimes]"
    by (simp add: nTimes_def upt_rec [of 0 100])
  have "out_of_transit (phase ! 0)"
    by (simp add: out_of_transit_phase)
  then show ?thesis
    by (simp add: samples_def times length_phase)
qed

lemma err_of_infinite_cell:
  assumes "cell flux 0 j = PInf" and "j < nWavelengths"
  shows "snd (transmission phase flux) ! j = NaN"
proof -
  have "depth_err_ppm (samples in_transit phase flux j) (samples out_of_transit phase flux j) = NaN"
    unfolding first_out_sample assms(1) by (rule depth_err_with_infinity)
  then show ?thesis
    using assms(2) by (simp add: transmission_eq)
qed

lemma sum_from_NaN: "foldl (+) NaN xs = NaN"
  by (induction xs) simp_all

lemma binned_err_head:
  assumes "length tde = 200" and "tde ! 0 = NaN"
    and "binner (Num 20) (Math_floor (Num (real nWavelengths) / Num 20)) wls td tde flux = Some bd"
  shows "hd (transitDepthErrBinned bd) = NaN"
proof -
  have nBins: "Math_floor (Num (real nWavelengths) / Num 20) = Num (real 10)"
    using floor_bins [of 20 nWavelengths] by (simp add: nWavelengths_def)
  have ks: "for_upto (Num 20) = Some [0..<20]"
    using for_upto_nat [of 20] by simp
  have "bin_sum tde (Num (real 20)) 0 [0..<20] = total (chunk tde 20 0)"
    by (rule bin_sum_chunk) (simp add: assms(1))
  moreover have "chunk tde 20 0 = NaN # take 19 (tl tde)"
    using assms(1,2) by (cases tde) (simp_all add: chunk_def)
  ultimately have "bin_sum tde (Num 20) 0 [0..<20] = NaN"
    by (simp add: total_def sum_from_NaN)
  then have "hd (map (\<lambda>b. bin_sum tde (Num 20) b [0..<20] / Num 20 / Math_sqrt (Num 20)) [0..<10]) = NaN"
    by (simp add: hd_map upt_rec [of 0 10])
  moreover have "transitDepthErrBinned bd
      = map (\<lambda>b. bin_sum tde (Num 20) b [0..<20] / Num 20 / Math_sqrt (Num 20)) [0..<10]"
    using assms(3) unfolding binner_def nBins for_upto_nat ks by auto
  ultimately show ?thesis by simp
qed

lemma GET_err:
  assumes "GET target sp = Some r"
  shows "\<exists>bd. binner (binSize_of sp) (Math_floor (Num (real nWavelengths) / binSize_of sp))
            (map Num wavelengths)
            (fst (transmission phase (fst (synthesize (seededRandom (hashString target))))))
            (snd (transmission phase (fst (synthesize (seededRandom (hashString target))))))
            (fst (synthesize (seededRandom (hashString target)))) = Some bd
          \<and> r_transit_depth_err_ppm r = transitDepthErrBinned bd"
  using assms by (auto simp: GET_unfold Let_def split: option.splits)

lemma default_binSize: "binSize_of [] = Num 20"
  by (simp add: binSize_of_def bin_size_arg_def sp_get_def Math_min_def Math_max_def
      parseInt_def ascii_def read_sign_def read_radix_def is_white_def is_digit_def digit_of_def)

text \<open>
  Claim C2. The sampler has no guard, and a request reaches the unguarded case: for the
  target \<^verbatim>\<open>"keyr"\<close> the seed is 3288563 and the first draw of the generator is exactly 0.
  \<^verbatim>\<open>Math.log\<close> receives it, the noise of the first cell of the cube is \<^verbatim>\<open>Infinity\<close> instead
  of a normal variate, and with the default bin size the first entry of the depth errors
  in the response is \<^verbatim>\<open>NaN\<close>.
\<close>

theorem zero_draw_at_keyr:
  "hashString (ascii ''keyr'') = 3288563
   \<and> fst (rand (seededRandom (hashString (ascii ''keyr'')))) = 0
   \<and> fst (gaussianRandom (seededRandom (hashString (ascii ''keyr''))) (Num 0) (Num 0.0005)) = PInf
   \<and> cell (fst (synthesize (seededRandom (hashString (ascii ''keyr''))))) 0 0 = PInf
   \<and> map_option (\<lambda>r. hd (r_transit_depth_err_ppm r)) (GET (ascii ''keyr'') []) = Some NaN"
proof -
  let ?r = "seededRandom (hashString (ascii ''keyr''))"
  have h: "hashString (ascii ''keyr'') = 3288563"
    by (simp add: hashString_poly ascii_def toInt32_def)
  have r: "?r = 3288563"
    by (simp add: h seededRandom_def)
  have s: "snd (rand 3288563) = 0"
    by (simp add: rand_state)
  then have u1: "fst (rand ?r) = 0"
    by (simp add: r rand_value)
  have noise: "fst (gaussianRandom ?r (Num 0) (Num 0.0005)) = PInf"
    unfolding r using s by (intro gaussian_at_zero) simp_all
  have c: "cell (fst (synthesize ?r)) 0 0 = PInf"
    unfolding first_cell noise by simp
  have e: "snd (transmission phase (fst (synthesize ?r))) ! 0 = NaN"
    using c by (rule err_of_infinite_cell) (simp add: nWavelengths_def)
  obtain resp where resp: "GET (ascii ''keyr'') [] = Some resp"
    using GET_total by blast
  obtain bd where bd: "binner (Num 20) (Math_floor (Num (real nWavelengths) / Num 20))
            (map Num wavelengths)
            (fst (transmission phase (fst (synthesize ?r))))
            (snd (transmission phase (fst (synthesize ?r))))
            (fst (synthesize ?r)) = Some bd"
      and out: "r_transit_depth_err_ppm resp = transitDepthErrBinned bd"
    using GET_err [OF resp] unfolding default_binSize by blast
  have "length (snd (transmission phase (fst (synthesize ?r)))) = 200"
    by (simp add: transmission_lengths nWavelengths_def)
  then have "hd (transitDepthErrBinned bd) = NaN"
    using e bd by (rule binned_err_head)
  then have g: "map_option (\<lambda>r. hd (r_transit_depth_err_ppm r)) (GET (ascii ''keyr'') []) = Some NaN"
    by (simp add: resp out)
  show ?thesis
    using h u1 noise c g by blast
qed

end
